theory Spec2Isabelle
  imports Main "HOL-Library.Word"
begin

unbundle bit_operations_syntax

section \<open>The MMU of the simulator (riscv/mmu.h)\<close>

text \<open>
  A shallow embedding of \<^verbatim>\<open>class mmu_t\<close>. The header holds the
  accessors \<^verbatim>\<open>load_func\<close>, \<^verbatim>\<open>store_func\<close>,
  \<^verbatim>\<open>load_insn\<close>, \<^verbatim>\<open>set_ptbr\<close> and \<^verbatim>\<open>translate\<close>;
  \<^verbatim>\<open>refill\<close>, \<^verbatim>\<open>walk\<close>, \<^verbatim>\<open>flush_tlb\<close> and
  \<^verbatim>\<open>flush_icache\<close> are only declared there.

  \<^item> \<^verbatim>\<open>reg_t\<close>, \<^verbatim>\<open>pte_t\<close> and \<^verbatim>\<open>long\<close> are 64-bit words
    (\<^verbatim>\<open>sizeof(pte_t) == 8\<close>), \<^verbatim>\<open>insn_t\<close> is its 32-bit member
    \<^verbatim>\<open>bits\<close>.
  \<^item> A \<^verbatim>\<open>void*\<close> into the backing buffer is the 64-bit offset of the byte it
    points to; the buffer is a function from offsets to bytes, and a value of several
    bytes lies there least significant byte first.
  \<^item> The arrays of 256 entries are functions of the index; every index the code
    computes is reduced modulo 256.
  \<^item> A \<^verbatim>\<open>throw\<close> is the left injection of a sum; it carries the state at the
    moment of the throw, since \<^verbatim>\<open>badvaddr\<close> and the caches keep what was
    written before it.
\<close>

subsection \<open>Configuration constants and page table entry fields\<close>

type_synonym reg_t = "64 word"
type_synonym pte_t = "64 word"
type_synonym insn_t = "32 word"
type_synonym memory = "reg_t \<Rightarrow> 8 word"

definition LEVELS :: nat where
  "LEVELS = 4"

definition PGSHIFT :: nat where
  "PGSHIFT = 12"

definition PGSIZE :: reg_t where
  "PGSIZE = push_bit PGSHIFT 1"

definition PTIDXBITS :: nat where
  "PTIDXBITS = PGSHIFT - 3"

definition PTE_T :: pte_t where "PTE_T = 0x001"
definition PTE_E :: pte_t where "PTE_E = 0x002"
definition PTE_R :: pte_t where "PTE_R = 0x004"
definition PTE_D :: pte_t where "PTE_D = 0x008"
definition PTE_UX :: pte_t where "PTE_UX = 0x010"
definition PTE_UW :: pte_t where "PTE_UW = 0x020"
definition PTE_UR :: pte_t where "PTE_UR = 0x040"
definition PTE_SX :: pte_t where "PTE_SX = 0x080"
definition PTE_SW :: pte_t where "PTE_SW = 0x100"
definition PTE_SR :: pte_t where "PTE_SR = 0x200"

definition PTE_PERM :: pte_t where
  "PTE_PERM = PTE_SR OR PTE_SW OR PTE_SX OR PTE_UR OR PTE_UW OR PTE_UX"

definition PTE_PERM_SHIFT :: nat where
  "PTE_PERM_SHIFT = 4"

definition PTE_PPN_SHIFT :: nat where
  "PTE_PPN_SHIFT = 12"

definition TLB_ENTRIES :: reg_t where
  "TLB_ENTRIES = 256"

definition ICACHE_ENTRIES :: reg_t where
  "ICACHE_ENTRIES = 256"

text \<open>\<^verbatim>\<open>sizeof(insn_t)\<close>: the instruction container has 32 bits.\<close>

definition sizeof_insn_t :: reg_t where
  "sizeof_insn_t = 4"

subsection \<open>Traps\<close>

text \<open>
  The header throws \<^verbatim>\<open>trap_load_address_misaligned\<close> and
  \<^verbatim>\<open>trap_store_address_misaligned\<close>. Modelled from the spec: trap.h is missing;
  the other constructors are the fault taxonomy of the spec (misaligned access, page
  fault and access violation, each in a load, a store and a fetch variant).
\<close>

datatype trap =
    trap_instruction_address_misaligned
  | trap_load_address_misaligned
  | trap_store_address_misaligned
  | trap_instruction_page_fault
  | trap_load_page_fault
  | trap_store_page_fault
  | trap_instruction_access_fault
  | trap_load_access_fault
  | trap_store_access_fault

subsection \<open>The state of an MMU\<close>

text \<open>The type parameter is \<^verbatim>\<open>insn_func_t\<close>, the decode handle.\<close>

record 'f mmu_t =
  mem :: memory
  memsz :: reg_t
  badvaddr :: reg_t
  ptbr :: reg_t
  supervisor :: bool
  vm_enabled :: bool
  tlb_data :: "nat \<Rightarrow> 64 word"
  tlb_insn_tag :: "nat \<Rightarrow> reg_t"
  tlb_load_tag :: "nat \<Rightarrow> reg_t"
  tlb_store_tag :: "nat \<Rightarrow> reg_t"
  icache_data :: "nat \<Rightarrow> insn_t"
  icache_func :: "nat \<Rightarrow> 'f"
  icache_tag :: "nat \<Rightarrow> reg_t"

text \<open>
  What decode.h, processor.h and the build configuration give to the header and
  are not part of it: whether \<^verbatim>\<open>RISCV_ENABLE_RVC\<close> is defined, the macro
  \<^verbatim>\<open>INSN_IS_RVC\<close>, and the dispatch table of the processor with its size
  (a modulus in the code, so it is not zero there). They are parameters of the fetch.
\<close>

record 'f decode_env =
  RISCV_ENABLE_RVC :: bool
  INSN_IS_RVC :: "insn_t \<Rightarrow> bool"
  dispatch_table :: "nat \<Rightarrow> 'f"
  DISPATCH_TABLE_SIZE :: nat

type_synonym ('f, 'a) result = "(trap \<times> 'f mmu_t) + ('a \<times> 'f mmu_t)"

subsection \<open>Reading and writing the backing buffer\<close>

text \<open>
  \<^verbatim>\<open>*(type*)paddr\<close> and \<^verbatim>\<open>*(type*)paddr = val\<close> for a type of
  \<open>n\<close> bytes.
\<close>

fun read_le :: "memory \<Rightarrow> reg_t \<Rightarrow> nat \<Rightarrow> 'a::len word" where
  "read_le m p 0 = 0"
| "read_le m p (Suc n) = ucast (m p) OR push_bit 8 (read_le m (p + 1) n)"

fun write_le :: "memory \<Rightarrow> reg_t \<Rightarrow> nat \<Rightarrow> 'a::len word \<Rightarrow> memory" where
  "write_le m p 0 v = m"
| "write_le m p (Suc n) v = write_le (m(p := ucast v)) (p + 1) n (drop_bit 8 v)"

subsection \<open>The page table walk and the refill\<close>

text \<open>
  Modelled from the spec: \<^verbatim>\<open>mmu_t::walk\<close> is declared in mmu.h (line 173) and
  defined elsewhere. Section 4.1: four levels of radix lookup, the index of a level a
  slice of \<open>PTIDXBITS\<close> address bits, the most significant slice first, the page
  table base the first table; the entry is read at
  \<open>table_base + index * entry_size\<close>; a table descriptor descends to the table its
  physical page number names, a leaf entry is returned, any other encoding is a fault,
  and so is the last level without a leaf. \<open>None\<close> is the fault.
\<close>

fun walk_levels :: "memory \<Rightarrow> reg_t \<Rightarrow> reg_t \<Rightarrow> nat \<Rightarrow> pte_t option" where
  "walk_levels m addr base 0 = None"
| "walk_levels m addr base (Suc n) =
     (let idx = drop_bit (PGSHIFT + n * PTIDXBITS) addr AND (push_bit PTIDXBITS 1 - 1);
          pte = (read_le m (base + idx * 8) 8 :: pte_t)
      in if pte AND PTE_T \<noteq> 0 \<and> pte AND PTE_E = 0
           then walk_levels m addr (push_bit PGSHIFT (drop_bit PTE_PPN_SHIFT pte)) n
         else if pte AND PTE_E \<noteq> 0 \<and> pte AND PTE_T = 0 then Some pte
         else None)"

definition walk :: "'f mmu_t \<Rightarrow> reg_t \<Rightarrow> pte_t option" where
  "walk s addr = walk_levels (mem s) addr (ptbr s) LEVELS"

text \<open>
  Modelled from the spec: the permission bit an access needs is the bit of its kind
  and of the privilege, as section 4.2 has it (store and supervisor: the supervisor
  write bit). \<^verbatim>\<open>store\<close> and \<^verbatim>\<open>fetch\<close> select the kind as in
  \<^verbatim>\<open>translate\<close>: fetch first, then store, else load. The bits are taken by
  the names mmu.h gives them (\<^verbatim>\<open>PTE_SW\<close> for a supervisor write), not by
  its comments, which name read and write the other way round.
\<close>

definition required_perm :: "bool \<Rightarrow> bool \<Rightarrow> bool \<Rightarrow> pte_t" where
  "required_perm super store fetch =
     (if fetch then (if super then PTE_SX else PTE_UX)
      else if store then (if super then PTE_SW else PTE_UW)
      else (if super then PTE_SR else PTE_UR))"

definition page_fault :: "bool \<Rightarrow> bool \<Rightarrow> trap" where
  "page_fault store fetch =
     (if fetch then trap_instruction_page_fault
      else if store then trap_store_page_fault else trap_load_page_fault)"

definition access_fault :: "bool \<Rightarrow> bool \<Rightarrow> trap" where
  "access_fault store fetch =
     (if fetch then trap_instruction_access_fault
      else if store then trap_store_access_fault else trap_load_access_fault)"

text \<open>
  Modelled from the spec: the sentinel of an invalid tag. Section 4.6: a flush resets
  all tags to a sentinel that never equals a real address or page tag. The spec does not
  give its value; it is the word of all ones here, which is neither page aligned nor
  even.
\<close>

definition INVALID_TAG :: reg_t where
  "INVALID_TAG = - 1"

text \<open>
  Modelled from the spec: \<^verbatim>\<open>mmu_t::refill\<close> is declared in mmu.h (line 170) and
  defined elsewhere. Section 4.2: it invokes the walker; on a fault it records the
  address and raises a page fault of the access kind; it checks the permission bit of
  the kind and the privilege, records the address and raises an access violation of the
  kind when the bit is absent; otherwise it composes the page offset with the physical
  page number of the leaf, writes the entry of the kind in the slot
  \<open>(addr >> PGSHIFT) mod TLB_ENTRIES\<close> and returns the resolved location.
  The entry of a kind is the tag in the array of the kind and the page base in
  \<^verbatim>\<open>tlb_data\<close>, the one array mmu.h declares for the three kinds (line 158).
  Writing the page base of a slot makes the tags that the other two kinds hold there
  stale, and section 8 (repeated accesses resolve to the same location whether or not
  the TLB was populated) leaves no room for a hit on a stale tag: \<open>tlb_install\<close>
  writes the tag of the kind and the page base, and resets the tags of the other two
  kinds in the slot to the sentinel of the flushes.
\<close>

definition tlb_install ::
  "'f mmu_t \<Rightarrow> bool \<Rightarrow> bool \<Rightarrow> nat \<Rightarrow> reg_t \<Rightarrow> 64 word \<Rightarrow> 'f mmu_t" where
  "tlb_install s store fetch idx tag base =
     s\<lparr>tlb_insn_tag := (tlb_insn_tag s)(idx := if fetch then tag else INVALID_TAG),
       tlb_store_tag := (tlb_store_tag s)
                          (idx := if \<not> fetch \<and> store then tag else INVALID_TAG),
       tlb_load_tag := (tlb_load_tag s)
                         (idx := if \<not> fetch \<and> \<not> store then tag else INVALID_TAG),
       tlb_data := (tlb_data s)(idx := base)\<rparr>"

definition refill :: "'f mmu_t \<Rightarrow> reg_t \<Rightarrow> bool \<Rightarrow> bool \<Rightarrow> ('f, reg_t) result" where
  "refill s addr store fetch =
     (case walk s addr of
        None \<Rightarrow> Inl (page_fault store fetch, s\<lparr>badvaddr := addr\<rparr>)
      | Some pte \<Rightarrow>
          if pte AND required_perm (supervisor s) store fetch = 0
            then Inl (access_fault store fetch, s\<lparr>badvaddr := addr\<rparr>)
          else
            let idx = unat (drop_bit PGSHIFT addr mod TLB_ENTRIES);
                expected_tag = addr AND NOT (PGSIZE - 1);
                base = push_bit PGSHIFT (drop_bit PTE_PPN_SHIFT pte)
            in Inr ((addr AND (PGSIZE - 1)) OR base,
                    tlb_install s store fetch idx expected_tag base))"

subsection \<open>translate (mmu.h, lines 176 to 186)\<close>

definition translate :: "'f mmu_t \<Rightarrow> reg_t \<Rightarrow> bool \<Rightarrow> bool \<Rightarrow> ('f, reg_t) result" where
  "translate s addr store fetch =
     (let idx = unat (drop_bit PGSHIFT addr mod TLB_ENTRIES);
          tlb_tag = (if fetch then tlb_insn_tag s
                     else if store then tlb_store_tag s else tlb_load_tag s);
          expected_tag = addr AND NOT (PGSIZE - 1)
      in if tlb_tag idx = expected_tag
           then Inr ((addr AND (PGSIZE - 1)) OR tlb_data s idx, s)
         else refill s addr store fetch)"

subsection \<open>Aligned loads and stores (mmu.h, lines 43 to 82)\<close>

text \<open>
  \<^verbatim>\<open>load_func(type)\<close> and \<^verbatim>\<open>store_func(type)\<close>, for a type of
  \<open>LENGTH('a)\<close> bits. The signed and the unsigned load of a width return the same
  bits; the sign is in the C type of the result.
\<close>

definition sizeof :: "'a::len itself \<Rightarrow> reg_t" where
  "sizeof T = of_nat (LENGTH('a) div 8)"

definition load_func :: "'f mmu_t \<Rightarrow> reg_t \<Rightarrow> ('f, 'a::len word) result" where
  "load_func s addr =
     (if addr mod sizeof TYPE('a) \<noteq> 0
        then Inl (trap_load_address_misaligned, s\<lparr>badvaddr := addr\<rparr>)
      else
        case translate s addr False False of
          Inl e \<Rightarrow> Inl e
        | Inr (paddr, s1) \<Rightarrow> Inr (read_le (mem s1) paddr (LENGTH('a) div 8), s1))"

definition store_func :: "'f mmu_t \<Rightarrow> reg_t \<Rightarrow> 'a::len word \<Rightarrow> (trap \<times> 'f mmu_t) + 'f mmu_t" where
  "store_func s addr val =
     (if addr mod sizeof TYPE('a) \<noteq> 0
        then Inl (trap_store_address_misaligned, s\<lparr>badvaddr := addr\<rparr>)
      else
        case translate s addr True False of
          Inl e \<Rightarrow> Inl e
        | Inr (paddr, s1) \<Rightarrow>
            Inr (s1\<lparr>mem := write_le (mem s1) paddr (LENGTH('a) div 8) val\<rparr>))"

definition load_uint8 :: "'f mmu_t \<Rightarrow> reg_t \<Rightarrow> ('f, 8 word) result" where
  "load_uint8 = load_func"

definition load_uint16 :: "'f mmu_t \<Rightarrow> reg_t \<Rightarrow> ('f, 16 word) result" where
  "load_uint16 = load_func"

definition load_uint32 :: "'f mmu_t \<Rightarrow> reg_t \<Rightarrow> ('f, 32 word) result" where
  "load_uint32 = load_func"

definition load_uint64 :: "'f mmu_t \<Rightarrow> reg_t \<Rightarrow> ('f, 64 word) result" where
  "load_uint64 = load_func"

definition load_int8 :: "'f mmu_t \<Rightarrow> reg_t \<Rightarrow> ('f, 8 word) result" where
  "load_int8 = load_func"

definition load_int16 :: "'f mmu_t \<Rightarrow> reg_t \<Rightarrow> ('f, 16 word) result" where
  "load_int16 = load_func"

definition load_int32 :: "'f mmu_t \<Rightarrow> reg_t \<Rightarrow> ('f, 32 word) result" where
  "load_int32 = load_func"

definition load_int64 :: "'f mmu_t \<Rightarrow> reg_t \<Rightarrow> ('f, 64 word) result" where
  "load_int64 = load_func"

definition store_uint8 :: "'f mmu_t \<Rightarrow> reg_t \<Rightarrow> 8 word \<Rightarrow> (trap \<times> 'f mmu_t) + 'f mmu_t" where
  "store_uint8 = store_func"

definition store_uint16 :: "'f mmu_t \<Rightarrow> reg_t \<Rightarrow> 16 word \<Rightarrow> (trap \<times> 'f mmu_t) + 'f mmu_t" where
  "store_uint16 = store_func"

definition store_uint32 :: "'f mmu_t \<Rightarrow> reg_t \<Rightarrow> 32 word \<Rightarrow> (trap \<times> 'f mmu_t) + 'f mmu_t" where
  "store_uint32 = store_func"

definition store_uint64 :: "'f mmu_t \<Rightarrow> reg_t \<Rightarrow> 64 word \<Rightarrow> (trap \<times> 'f mmu_t) + 'f mmu_t" where
  "store_uint64 = store_func"

subsection \<open>load_insn (mmu.h, lines 90 to 130)\<close>

text \<open>
  The out-parameter \<^verbatim>\<open>func\<close> is an argument (what the caller's variable holds
  before the call) and a component of the result, of a throw as well: the third
  component is what the variable holds when the call ends.
\<close>

definition dispatch :: "'f decode_env \<Rightarrow> insn_t \<Rightarrow> 'f" where
  "dispatch E bits = dispatch_table E (unat bits mod DISPATCH_TABLE_SIZE E)"

definition load_insn ::
  "'f decode_env \<Rightarrow> 'f mmu_t \<Rightarrow> reg_t \<Rightarrow> bool \<Rightarrow> 'f
     \<Rightarrow> (trap \<times> 'f mmu_t \<times> 'f) + (insn_t \<times> 'f mmu_t \<times> 'f)" where
  "load_insn E s addr rvc func =
     (if RISCV_ENABLE_RVC E \<and> addr mod 4 = 2 \<and> rvc then
        (case translate s addr False True of
           Inl (t, s1) \<Rightarrow> Inl (t, s1, func)
         | Inr (addr_lo, s1) \<Rightarrow>
             let bits = (ucast (read_le (mem s1) addr_lo 2 :: 16 word) :: insn_t);
                 func1 = dispatch E bits
             in if \<not> INSN_IS_RVC E bits then
                  (case translate s1 (addr + 2) False True of
                     Inl (t, s2) \<Rightarrow> Inl (t, s2, func1)
                   | Inr (addr_hi, s2) \<Rightarrow>
                       Inr (bits OR push_bit 16
                              (ucast (read_le (mem s2) addr_hi 2 :: 16 word) :: insn_t),
                            s2, func1))
                else Inr (bits, s1, func1))
      else
        (let idx = unat ((addr div sizeof_insn_t) mod ICACHE_ENTRIES);
             data = icache_data s idx;
             func1 = icache_func s idx
         in if icache_tag s idx = addr then Inr (data, s, func1)
            else
              (case translate s addr False True of
                 Inl (t, s1) \<Rightarrow> Inl (t, s1, func1)
               | Inr (paddr, s1) \<Rightarrow>
                   let insn = (read_le (mem s1) paddr 4 :: insn_t);
                       func2 = dispatch E insn
                   in Inr (insn,
                           s1\<lparr>icache_tag := (icache_tag s1)(idx := addr),
                              icache_data := (icache_data s1)(idx := insn),
                              icache_func := (icache_func s1)(idx := func2)\<rparr>,
                           func2))))"

subsection \<open>Registers and flushes (mmu.h, lines 132 to 145)\<close>

text \<open>
  Modelled from the spec: \<^verbatim>\<open>flush_tlb\<close> and \<^verbatim>\<open>flush_icache\<close> are
  declared in mmu.h (lines 144 and 145, under the comment "flush the TLB and instruction
  cache") and defined elsewhere. Section 4.6: they reset all tags to a sentinel that
  never equals a real address or page tag, and setting the page table base, whose body in
  the header calls \<^verbatim>\<open>flush_tlb\<close> alone, invalidates both caches: so
  \<^verbatim>\<open>flush_tlb\<close> resets the three tag arrays of the TLB and flushes the
  instruction cache.
\<close>

definition flush_icache :: "'f mmu_t \<Rightarrow> 'f mmu_t" where
  "flush_icache s = s\<lparr>icache_tag := (\<lambda>i. INVALID_TAG)\<rparr>"

definition flush_tlb :: "'f mmu_t \<Rightarrow> 'f mmu_t" where
  "flush_tlb s =
     flush_icache (s\<lparr>tlb_insn_tag := (\<lambda>i. INVALID_TAG),
                     tlb_load_tag := (\<lambda>i. INVALID_TAG),
                     tlb_store_tag := (\<lambda>i. INVALID_TAG)\<rparr>)"

definition get_badvaddr :: "'f mmu_t \<Rightarrow> reg_t" where
  "get_badvaddr s = badvaddr s"

definition get_ptbr :: "'f mmu_t \<Rightarrow> reg_t" where
  "get_ptbr s = ptbr s"

definition set_ptbr :: "'f mmu_t \<Rightarrow> reg_t \<Rightarrow> 'f mmu_t" where
  "set_ptbr s addr = flush_tlb (s\<lparr>ptbr := addr AND NOT (PGSIZE - 1)\<rparr>)"

definition set_supervisor :: "'f mmu_t \<Rightarrow> bool \<Rightarrow> 'f mmu_t" where
  "set_supervisor s super = s\<lparr>supervisor := super\<rparr>"

definition set_vm_enabled :: "'f mmu_t \<Rightarrow> bool \<Rightarrow> 'f mmu_t" where
  "set_vm_enabled s en = s\<lparr>vm_enabled := en\<rparr>"

subsection \<open>A concrete machine\<close>

text \<open>
  A decode environment and a machine on which the definitions are evaluated. The page
  table at \<open>0x1000\<close> maps the virtual page 0 to the physical page 5, with the
  supervisor permissions only, and the virtual page 256 (the same TLB slot) to the
  physical page 6, with all permissions; no other page is mapped.
\<close>

definition ex_env :: "nat decode_env" where
  "ex_env = \<lparr>RISCV_ENABLE_RVC = True, INSN_IS_RVC = (\<lambda>b. b AND 3 \<noteq> 3),
              dispatch_table = (\<lambda>i. i), DISPATCH_TABLE_SIZE = 1024\<rparr>"

definition ex_mem :: memory where
  "ex_mem = (\<lambda>a. 0)
     (0x1000 := 0x01, 0x1001 := 0x20,
      0x2000 := 0x01, 0x2001 := 0x30,
      0x3000 := 0x01, 0x3001 := 0x40,
      0x4000 := 0x82, 0x4001 := 0x53,
      0x4800 := 0xF2, 0x4801 := 0x63,
      0x5002 := 0x13, 0x5003 := 0x05, 0x5004 := 0x35, 0x5005 := 0x12,
      0x5FFE := 0x03,
      0x6002 := 0x01)"

definition ex_mmu :: "nat mmu_t" where
  "ex_mmu = \<lparr>mem = ex_mem, memsz = 0x10000, badvaddr = 0, ptbr = 0x1000,
              supervisor = True, vm_enabled = True,
              tlb_data = (\<lambda>i. 0),
              tlb_insn_tag = (\<lambda>i. INVALID_TAG),
              tlb_load_tag = (\<lambda>i. INVALID_TAG),
              tlb_store_tag = (\<lambda>i. INVALID_TAG),
              icache_data = (\<lambda>i. 0),
              icache_func = (\<lambda>i. 99),
              icache_tag = (\<lambda>i. INVALID_TAG)\<rparr>"

subsection \<open>The fast path in the words of the specification\<close>

text \<open>
  The access kind that the two flags of \<^verbatim>\<open>translate\<close> select, and the tag
  array of a kind.
\<close>

datatype access_kind = Fetch | Load | Store

definition kind_of :: "bool \<Rightarrow> bool \<Rightarrow> access_kind" where
  "kind_of store fetch = (if fetch then Fetch else if store then Store else Load)"

definition tlb_tag_of :: "access_kind \<Rightarrow> 'f mmu_t \<Rightarrow> nat \<Rightarrow> reg_t" where
  "tlb_tag_of k s =
     (case k of Fetch \<Rightarrow> tlb_insn_tag s | Load \<Rightarrow> tlb_load_tag s | Store \<Rightarrow> tlb_store_tag s)"

text \<open>
  Section 4.3 of the specification, in arithmetic: the slot is
  \<open>(address >> page_shift) mod TLB_SIZE\<close>, the tag of the kind is compared with the
  page-aligned address, a match returns the page offset combined with the cached page
  base, a mismatch is delegated to the refill.
\<close>

definition translate_spec :: "'f mmu_t \<Rightarrow> reg_t \<Rightarrow> bool \<Rightarrow> bool \<Rightarrow> ('f, reg_t) result" where
  "translate_spec s addr store fetch =
     (let slot = (unat addr div 2 ^ PGSHIFT) mod unat TLB_ENTRIES;
          page = addr - addr mod PGSIZE;
          offset = addr mod PGSIZE
      in if tlb_tag_of (kind_of store fetch) s slot = page
           then Inr (offset OR tlb_data s slot, s)
         else refill s addr store fetch)"

text \<open>The three misaligned-access traps.\<close>

definition misaligned_trap :: "trap \<Rightarrow> bool" where
  "misaligned_trap t =
     (t = trap_instruction_address_misaligned \<or> t = trap_load_address_misaligned
      \<or> t = trap_store_address_misaligned)"

subsection \<open>The fetch across a word boundary as the specification orders it\<close>

text \<open>
  The fetch at an address \<open>a\<close> with \<open>a mod 4 = 2\<close> in variable-length mode, in the
  order the specification gives: the low half is translated and read; a short-form
  instruction is looked up and returned; otherwise the high half is translated and read,
  the two halves are concatenated, and only then the decode handle is looked up, on
  the full instruction bits. A trap of the second translation comes before the lookup,
  so \<^verbatim>\<open>func\<close> still holds what the caller passed.
\<close>

definition load_insn_lookup_last ::
  "'f decode_env \<Rightarrow> 'f mmu_t \<Rightarrow> reg_t \<Rightarrow> 'f
     \<Rightarrow> (trap \<times> 'f mmu_t \<times> 'f) + (insn_t \<times> 'f mmu_t \<times> 'f)" where
  "load_insn_lookup_last E s addr func =
     (case translate s addr False True of
        Inl (t, s1) \<Rightarrow> Inl (t, s1, func)
      | Inr (addr_lo, s1) \<Rightarrow>
          let lo = (ucast (read_le (mem s1) addr_lo 2 :: 16 word) :: insn_t)
          in if INSN_IS_RVC E lo then Inr (lo, s1, dispatch E lo)
             else
               (case translate s1 (addr + 2) False True of
                  Inl (t, s2) \<Rightarrow> Inl (t, s2, func)
                | Inr (addr_hi, s2) \<Rightarrow>
                    let insn = lo OR push_bit 16
                                 (ucast (read_le (mem s2) addr_hi 2 :: 16 word) :: insn_t)
                    in Inr (insn, s2, dispatch E insn)))"

text \<open>The state in which a fetch ends, whether it returns or throws.\<close>

definition final_state :: "(trap \<times> 'f mmu_t \<times> 'f) + (insn_t \<times> 'f mmu_t \<times> 'f) \<Rightarrow> 'f mmu_t" where
  "final_state r = (case r of Inl (t, s, f) \<Rightarrow> s | Inr (i, s, f) \<Rightarrow> s)"

text \<open>The value of \<^verbatim>\<open>*func\<close> when a fetch ends, whether it returns or throws.\<close>

definition final_func :: "(trap \<times> 'f mmu_t \<times> 'f) + (insn_t \<times> 'f mmu_t \<times> 'f) \<Rightarrow> 'f" where
  "final_func r = (case r of Inl (t, s, f) \<Rightarrow> f | Inr (i, s, f) \<Rightarrow> f)"

subsection \<open>The tag array of an access kind\<close>


section \<open>Properties\<close>

lemma PGSIZE_minus_1: "PGSIZE - 1 = (0xFFF :: reg_t)"
  by (simp add: PGSIZE_def PGSHIFT_def)

lemma PGSIZE_eq: "PGSIZE = 2 ^ 12"
  by (simp add: PGSIZE_def PGSHIFT_def)

lemma PGSIZE_mask: "PGSIZE - 1 = mask 12"
  by (simp add: PGSIZE_eq mask_eq_exp_minus_1)

lemma tlb_index:
  "unat (drop_bit PGSHIFT (addr :: reg_t) mod TLB_ENTRIES)
     = (unat addr div 2 ^ PGSHIFT) mod unat TLB_ENTRIES"
  by (simp add: unat_mod drop_bit_eq_div unat_div PGSHIFT_def)

lemma page_offset: "(addr :: reg_t) AND (PGSIZE - 1) = addr mod PGSIZE"
proof -
  have "addr AND (PGSIZE - 1) = addr AND mask 12"
    by (simp only: PGSIZE_mask)
  also have "\<dots> = take_bit 12 addr"
    by (simp only: take_bit_eq_mask)
  also have "\<dots> = addr mod 2 ^ 12"
    by (simp only: take_bit_eq_mod)
  finally show ?thesis
    by (simp only: PGSIZE_eq)
qed

lemma page_base: "(addr :: reg_t) AND NOT (PGSIZE - 1) = addr - addr mod PGSIZE"
proof -
  have "addr AND NOT (mask 12) = push_bit 12 (drop_bit 12 addr)"
    by (auto simp add: bit_eq_iff bit_simps)
  also have "\<dots> = addr div 2 ^ 12 * 2 ^ 12"
    by (simp add: push_bit_eq_mult drop_bit_eq_div)
  also have "\<dots> = addr - addr mod 2 ^ 12"
    by (simp only: minus_mod_eq_div_mult)
  finally have "addr AND NOT (mask 12) = addr - addr mod 2 ^ 12" .
  then show ?thesis
    unfolding PGSIZE_mask by (simp only: PGSIZE_eq)
qed

subsection \<open>The fast path of translate\<close>

text \<open>
  C6. For every address and access kind, \<^verbatim>\<open>translate\<close> is the fast path of
  the specification: the slot index is \<open>(address >> page_shift) mod TLB_SIZE\<close>, the
  tag of the matching access kind in that slot is compared with the page-aligned
  address, a match returns the page offset of the address combined with the cached
  physical page base and leaves the state as it is, and a mismatch is delegated to
  the refill.
\<close>

theorem translate_refines_spec:
  "translate s addr store fetch = translate_spec s addr store fetch"
  by (simp add: translate_def translate_spec_def tlb_index page_offset page_base
        kind_of_def tlb_tag_of_def Let_def)

theorem translate_refines_spec_witness:
  "translate ex_mmu 0x1234 True False = translate_spec ex_mmu 0x1234 True False"
  by (rule translate_refines_spec)

subsection \<open>What a refill and a translation leave unchanged\<close>

lemma page_fault_not_misaligned: "\<not> misaligned_trap (page_fault store fetch)"
  by (simp add: misaligned_trap_def page_fault_def)

lemma access_fault_not_misaligned: "\<not> misaligned_trap (access_fault store fetch)"
  by (simp add: misaligned_trap_def access_fault_def)

lemma refill_Inl:
  assumes "refill s addr store fetch = Inl (t, s')"
  shows "(t = page_fault store fetch \<or> t = access_fault store fetch)
         \<and> s' = s\<lparr>badvaddr := addr\<rparr>"
  using assms by (auto simp add: refill_def tlb_install_def Let_def split: option.splits if_splits)

lemma refill_Inr:
  assumes "refill s addr store fetch = Inr (p, s')"
  shows "mem s' = mem s \<and> badvaddr s' = badvaddr s \<and> ptbr s' = ptbr s
         \<and> supervisor s' = supervisor s \<and> vm_enabled s' = vm_enabled s
         \<and> icache_tag s' = icache_tag s \<and> icache_data s' = icache_data s
         \<and> icache_func s' = icache_func s"
  using assms by (auto simp add: refill_def tlb_install_def Let_def split: option.splits if_splits)

lemma translate_Inl:
  assumes "translate s addr store fetch = Inl (t, s')"
  shows "(t = page_fault store fetch \<or> t = access_fault store fetch)
         \<and> s' = s\<lparr>badvaddr := addr\<rparr>"
  using assms refill_Inl [of s addr store fetch t s']
  by (simp add: translate_def Let_def split: if_splits)

lemma translate_Inr:
  assumes "translate s addr store fetch = Inr (p, s')"
  shows "mem s' = mem s \<and> badvaddr s' = badvaddr s \<and> ptbr s' = ptbr s
         \<and> supervisor s' = supervisor s \<and> vm_enabled s' = vm_enabled s
         \<and> icache_tag s' = icache_tag s \<and> icache_data s' = icache_data s
         \<and> icache_func s' = icache_func s"
  using assms refill_Inr [of s addr store fetch p s']
  by (auto simp add: translate_def Let_def split: if_splits)

lemma translate_not_misaligned:
  "translate s addr store fetch = Inl (t, s') \<Longrightarrow> \<not> misaligned_trap t"
  using translate_Inl [of s addr store fetch t s']
  by (auto simp add: page_fault_not_misaligned access_fault_not_misaligned)

subsection \<open>Evaluating the concrete machine\<close>

lemma read_le_2: "read_le m p 2 = ucast (m p) OR push_bit 8 (ucast (m (p + 1)))"
  by (simp add: eval_nat_numeral)

lemma read_le_4:
  "read_le m p 4 = ucast (m p) OR push_bit 8 (ucast (m (p + 1))
     OR push_bit 8 (ucast (m (p + 2)) OR push_bit 8 (ucast (m (p + 3)))))"
  by (simp add: eval_nat_numeral add.assoc)

lemma read_le_8:
  "read_le m p 8 = ucast (m p) OR push_bit 8 (ucast (m (p + 1))
     OR push_bit 8 (ucast (m (p + 2)) OR push_bit 8 (ucast (m (p + 3))
     OR push_bit 8 (ucast (m (p + 4)) OR push_bit 8 (ucast (m (p + 5))
     OR push_bit 8 (ucast (m (p + 6)) OR push_bit 8 (ucast (m (p + 7)))))))))"
  by (simp add: eval_nat_numeral add.assoc)

lemma walk_levels_numeral:
  "walk_levels m addr base (numeral k) =
     (let n = pred_numeral k;
          idx = drop_bit (PGSHIFT + n * PTIDXBITS) addr AND (push_bit PTIDXBITS 1 - 1);
          pte = (read_le m (base + idx * 8) 8 :: pte_t)
      in if pte AND PTE_T \<noteq> 0 \<and> pte AND PTE_E = 0
           then walk_levels m addr (push_bit PGSHIFT (drop_bit PTE_PPN_SHIFT pte)) n
         else if pte AND PTE_E \<noteq> 0 \<and> pte AND PTE_T = 0 then Some pte
         else None)"
  by (simp add: numeral_eq_Suc Let_def)

lemma walk_levels_1:
  "walk_levels m addr base (Suc 0) =
     (let idx = drop_bit PGSHIFT addr AND (push_bit PTIDXBITS 1 - 1);
          pte = (read_le m (base + idx * 8) 8 :: pte_t)
      in if pte AND PTE_E \<noteq> 0 \<and> pte AND PTE_T = 0 then Some pte else None)"
  by (simp add: Let_def)

lemmas cfg_defs = LEVELS_def PGSHIFT_def PTIDXBITS_def PTE_T_def PTE_E_def
  PTE_PPN_SHIFT_def PGSIZE_def TLB_ENTRIES_def

lemmas walk_eval = walk_def walk_levels_numeral walk_levels_1 read_le_8 ex_mem_def
  cfg_defs Let_def

text \<open>
  The walks of the concrete machine; they read the page table and the base register
  only, so they hold in every state the machine goes through.
\<close>

lemma ex_walk_page0:
  "mem s = ex_mem \<Longrightarrow> ptbr s = 0x1000 \<Longrightarrow> walk s 0x4 = Some 0x5382"
  "mem s = ex_mem \<Longrightarrow> ptbr s = 0x1000 \<Longrightarrow> walk s 0x2 = Some 0x5382"
  "mem s = ex_mem \<Longrightarrow> ptbr s = 0x1000 \<Longrightarrow> walk s 0xFFE = Some 0x5382"
  by (simp_all add: walk_eval del: walk_levels.simps)

lemma ex_walk_page1:
  "mem s = ex_mem \<Longrightarrow> ptbr s = 0x1000 \<Longrightarrow> walk s 0x1000 = None"
  "mem s = ex_mem \<Longrightarrow> ptbr s = 0x1000 \<Longrightarrow> walk s 0x1001 = None"
  by (simp_all add: walk_eval del: walk_levels.simps)

lemma ex_walk_page256:
  "mem s = ex_mem \<Longrightarrow> ptbr s = 0x1000 \<Longrightarrow> walk s 0x100004 = Some 0x63F2"
  "mem s = ex_mem \<Longrightarrow> ptbr s = 0x1000 \<Longrightarrow> walk s 0x100002 = Some 0x63F2"
  by (simp_all add: walk_eval del: walk_levels.simps)

subsection \<open>Alignment of loads and stores\<close>

lemma sizeof_mod:
  assumes "LENGTH('a::len) \<in> {8, 16, 32, 64}"
  shows "((addr :: reg_t) mod sizeof TYPE('a) \<noteq> 0)
           = (unat addr mod (LENGTH('a) div 8) \<noteq> 0)"
proof -
  have "unat (sizeof TYPE('a)) = LENGTH('a) div 8"
    using assms by (auto simp add: sizeof_def)
  then have "unat (addr mod sizeof TYPE('a)) = unat addr mod (LENGTH('a) div 8)"
    by (simp add: unat_mod)
  then show ?thesis
    by (metis unat_eq_0)
qed

text \<open>
  C5. For every address \<open>a\<close> and every width \<open>w\<close> in \<open>{8, 16, 32, 64}\<close>, the load of
  width \<open>w\<close> ends in a misaligned-access trap exactly when \<open>a mod (w / 8) \<noteq> 0\<close>; the
  trap is then the load variant and the state is the one before the call with
  \<open>a\<close> in \<^verbatim>\<open>badvaddr\<close>. The same holds of the store, with the store variant.
\<close>

theorem misaligned_access_iff:
  fixes s :: "'f mmu_t" and addr :: reg_t and val :: "'a::len word"
  assumes "LENGTH('a) \<in> {8, 16, 32, 64}"
  shows "((load_func s addr :: ('f, 'a word) result) = Inl (t, s') \<and> misaligned_trap t)
           = (unat addr mod (LENGTH('a) div 8) \<noteq> 0 \<and> t = trap_load_address_misaligned
              \<and> s' = s\<lparr>badvaddr := addr\<rparr>)
         \<and> ((store_func s addr val = Inl (t, s') \<and> misaligned_trap t)
           = (unat addr mod (LENGTH('a) div 8) \<noteq> 0 \<and> t = trap_store_address_misaligned
              \<and> s' = s\<lparr>badvaddr := addr\<rparr>))"
proof (cases "addr mod sizeof TYPE('a) = 0")
  case True
  then have al: "unat addr mod (LENGTH('a) div 8) = 0"
    using sizeof_mod [OF assms, of addr] by simp
  have "\<not> ((load_func s addr :: ('f, 'a word) result) = Inl (t, s') \<and> misaligned_trap t)"
    using True translate_not_misaligned [of s addr False False t s']
    by (auto simp add: load_func_def split: sum.splits prod.splits)
  moreover have "\<not> (store_func s addr val = Inl (t, s') \<and> misaligned_trap t)"
    using True translate_not_misaligned [of s addr True False t s']
    by (auto simp add: store_func_def split: sum.splits prod.splits)
  ultimately show ?thesis
    using al by simp
next
  case False
  then have mis: "unat addr mod (LENGTH('a) div 8) \<noteq> 0"
    using sizeof_mod [OF assms, of addr] by simp
  have "(load_func s addr :: ('f, 'a word) result)
          = Inl (trap_load_address_misaligned, s\<lparr>badvaddr := addr\<rparr>)"
    using False by (simp add: load_func_def)
  moreover have "store_func s addr val
          = Inl (trap_store_address_misaligned, s\<lparr>badvaddr := addr\<rparr>)"
    using False by (simp add: store_func_def)
  ultimately show ?thesis
    using mis by (auto simp add: misaligned_trap_def)
qed

theorem misaligned_access_iff_witness:
  "LENGTH(32) \<in> {8, 16, 32, 64 :: nat}
   \<and> unat (0x1001 :: reg_t) mod (LENGTH(32) div 8) = 1
   \<and> (load_uint32 ex_mmu 0x1001 = Inl (trap_load_address_misaligned, ex_mmu\<lparr>badvaddr := 0x1001\<rparr>)
      \<and> misaligned_trap trap_load_address_misaligned)
   \<and> (store_uint32 ex_mmu 0x1001 0xDEADBEEF
        = Inl (trap_store_address_misaligned, ex_mmu\<lparr>badvaddr := 0x1001\<rparr>)
      \<and> misaligned_trap trap_store_address_misaligned)
   \<and> get_badvaddr (ex_mmu\<lparr>badvaddr := 0x1001\<rparr>) = 0x1001"
proof -
  have w: "LENGTH(32) \<in> {8, 16, 32, 64 :: nat}"
    by simp
  have m: "unat (0x1001 :: reg_t) mod (LENGTH(32) div 8) = 1"
    by simp
  have l: "(load_func ex_mmu 0x1001 :: (nat, 32 word) result)
             = Inl (trap_load_address_misaligned, ex_mmu\<lparr>badvaddr := 0x1001\<rparr>)
           \<and> misaligned_trap trap_load_address_misaligned"
    by (rule iffD2 [OF conjunct1 [OF misaligned_access_iff [OF w]]]) (simp add: m)
  have st: "store_func ex_mmu 0x1001 (0xDEADBEEF :: 32 word)
             = Inl (trap_store_address_misaligned, ex_mmu\<lparr>badvaddr := 0x1001\<rparr>)
           \<and> misaligned_trap trap_store_address_misaligned"
    by (rule iffD2 [OF conjunct2 [OF misaligned_access_iff [OF w]]]) (simp add: m)
  show ?thesis
    using w m l st by (simp add: load_uint32_def store_uint32_def get_badvaddr_def)
qed

subsection \<open>Stores\<close>

lemma write_le_other:
  "(\<forall>i<n. q \<noteq> p + of_nat i) \<Longrightarrow> write_le m p n v q = m q"
proof (induction n arbitrary: m p v)
  case 0
  then show ?case by simp
next
  case (Suc n)
  have "\<forall>i<n. q \<noteq> (p + 1) + of_nat i"
  proof (intro allI impI)
    fix i assume "i < n"
    then have "q \<noteq> p + of_nat (Suc i)"
      using Suc.prems by blast
    then show "q \<noteq> (p + 1) + of_nat i"
      by (simp add: add.assoc)
  qed
  then have "write_le (m(p := ucast v)) (p + 1) n (drop_bit 8 v) q = (m(p := ucast v)) q"
    by (rule Suc.IH)
  moreover have "q \<noteq> p"
    using Suc.prems [rule_format, of 0] by simp
  ultimately show ?case
    by simp
qed

lemma of_nat_Suc_neq_0:
  assumes "i < 8"
  shows "(p :: reg_t) \<noteq> (p + 1) + of_nat i"
proof -
  have "unat (of_nat (Suc i) :: reg_t) = Suc i"
    using assms by (simp add: unat_of_nat del: of_nat_Suc)
  then have "(of_nat (Suc i) :: reg_t) \<noteq> 0"
    by (metis Zero_not_Suc unat_0)
  then show ?thesis
    by (simp add: add.assoc)
qed

lemma byte_then_rest:
  fixes v :: "'a::len word"
  shows "ucast (ucast v :: 8 word) OR push_bit 8 (take_bit (8 * n) (drop_bit 8 v))
           = take_bit (8 * Suc n) v"
  by (rule bit_word_eqI) (auto simp add: bit_simps)

lemma read_write_le:
  fixes v :: "'a::len word"
  shows "n \<le> 8 \<Longrightarrow> read_le (write_le m p n v) p n = take_bit (8 * n) v"
proof (induction n arbitrary: m p v)
  case 0
  then show ?case by simp
next
  case (Suc n)
  let ?W = "write_le (m(p := ucast v)) (p + 1) n (drop_bit 8 v)"
  have "\<forall>i<n. p \<noteq> (p + 1) + of_nat i"
    using Suc.prems of_nat_Suc_neq_0 [of _ p] by simp
  then have "?W p = (m(p := ucast v)) p"
    by (rule write_le_other)
  then have first: "?W p = ucast v"
    by simp
  have rest: "read_le ?W (p + 1) n = take_bit (8 * n) (drop_bit 8 v)"
    using Suc.prems by (simp add: Suc.IH)
  show ?case
    using byte_then_rest [of v n] by (simp add: first rest)
qed

text \<open>
  C7. For every width \<open>w\<close> in \<open>{8, 16, 32, 64}\<close>, a store that ends in a trap
  (misalignment, page fault or access violation) leaves the backing buffer as it was;
  a store that returns has translated the address to a location \<open>p\<close> and the buffer
  differs from the one before in the \<open>w / 8\<close> bytes from \<open>p\<close> only, which hold the
  \<open>w\<close> bits of the value.
\<close>

theorem store_all_or_nothing:
  fixes s :: "'f mmu_t" and val :: "'a::len word"
  assumes "LENGTH('a) \<in> {8, 16, 32, 64}"
  shows "case store_func s addr val of
           Inl (t, s') \<Rightarrow> mem s' = mem s
         | Inr s' \<Rightarrow>
             (\<exists>p s1. translate s addr True False = Inr (p, s1)
                \<and> s' = s1\<lparr>mem := write_le (mem s) p (LENGTH('a) div 8) val\<rparr>
                \<and> read_le (mem s') p (LENGTH('a) div 8) = val
                \<and> (\<forall>q. (\<forall>i < LENGTH('a) div 8. q \<noteq> p + of_nat i) \<longrightarrow> mem s' q = mem s q))"
proof (cases "addr mod sizeof TYPE('a) = 0")
  case False
  then show ?thesis
    by (simp add: store_func_def)
next
  case True
  show ?thesis
  proof (cases "translate s addr True False")
    case (Inl e)
    obtain t s' where e: "e = (t, s')"
      by (cases e)
    have "s' = s\<lparr>badvaddr := addr\<rparr>"
      using translate_Inl [of s addr True False t s'] Inl e by simp
    then show ?thesis
      using True Inl e by (simp add: store_func_def)
  next
    case (Inr r)
    obtain p s1 where r: "r = (p, s1)"
      by (cases r)
    let ?n = "LENGTH('a) div 8"
    have m1: "mem s1 = mem s"
      using translate_Inr [of s addr True False p s1] Inr r by simp
    have st: "store_func s addr val = Inr (s1\<lparr>mem := write_le (mem s) p ?n val\<rparr>)"
      using True Inr r m1 by (simp add: store_func_def)
    have n8: "?n \<le> 8" and bits: "8 * ?n = LENGTH('a)"
      using assms by auto
    have "read_le (write_le (mem s) p ?n val) p ?n = take_bit (8 * ?n) val"
      using n8 by (rule read_write_le)
    then have rb: "read_le (write_le (mem s) p ?n val) p ?n = val"
      by (simp add: bits)
    have other: "\<forall>q. (\<forall>i < ?n. q \<noteq> p + of_nat i) \<longrightarrow> write_le (mem s) p ?n val q = mem s q"
      by (simp add: write_le_other)
    show ?thesis
      using Inr r rb other by (simp add: st)
  qed
qed

lemma ex_store_page_fault:
  "store_func ex_mmu 0x1000 (0xDEADBEEF :: 32 word)
     = Inl (trap_store_page_fault, ex_mmu\<lparr>badvaddr := 0x1000\<rparr>)"
proof -
  have "walk ex_mmu 0x1000 = None"
    by (rule ex_walk_page1(1)) (simp_all add: ex_mmu_def)
  then have "translate ex_mmu 0x1000 True False
               = Inl (trap_store_page_fault, ex_mmu\<lparr>badvaddr := 0x1000\<rparr>)"
    by (simp add: translate_def refill_def page_fault_def ex_mmu_def INVALID_TAG_def cfg_defs)
  then show ?thesis
    by (simp add: store_func_def sizeof_def)
qed

lemma ex_store_translate:
  "translate ex_mmu 0x100004 True False
     = Inr (0x6004, ex_mmu\<lparr>tlb_store_tag := (tlb_store_tag ex_mmu)(0 := 0x100000),
                           tlb_data := (tlb_data ex_mmu)(0 := 0x6000)\<rparr>)"
proof -
  have "walk ex_mmu 0x100004 = Some 0x63F2"
    by (rule ex_walk_page256) (simp_all add: ex_mmu_def)
  then show ?thesis
    by (simp add: translate_def refill_def tlb_install_def fun_upd_idem_iff required_perm_def PTE_SW_def
          ex_mmu_def INVALID_TAG_def cfg_defs)
qed

lemma ex_store_success:
  "store_func ex_mmu 0x100004 (0xDEADBEEF :: 32 word)
     = Inr (ex_mmu\<lparr>tlb_store_tag := (tlb_store_tag ex_mmu)(0 := 0x100000),
                    tlb_data := (tlb_data ex_mmu)(0 := 0x6000),
                    mem := write_le ex_mem 0x6004 4 (0xDEADBEEF :: 32 word)\<rparr>)"
  by (simp add: store_func_def sizeof_def ex_store_translate del: write_le.simps)
     (simp add: ex_mmu_def)

theorem store_all_or_nothing_witness:
  "LENGTH(32) \<in> {8, 16, 32, 64 :: nat}
   \<and> store_uint32 ex_mmu 0x1000 0xDEADBEEF
       = Inl (trap_store_page_fault, ex_mmu\<lparr>badvaddr := 0x1000\<rparr>)
   \<and> mem (ex_mmu\<lparr>badvaddr := 0x1000\<rparr>) = mem ex_mmu
   \<and> store_uint32 ex_mmu 0x100004 0xDEADBEEF
       = Inr (ex_mmu\<lparr>tlb_store_tag := (tlb_store_tag ex_mmu)(0 := 0x100000),
                      tlb_data := (tlb_data ex_mmu)(0 := 0x6000),
                      mem := write_le ex_mem 0x6004 4 (0xDEADBEEF :: 32 word)\<rparr>)
   \<and> read_le (write_le ex_mem 0x6004 4 (0xDEADBEEF :: 32 word)) 0x6004 4
       = (0xDEADBEEF :: 32 word)"
proof -
  have w: "LENGTH(32) \<in> {8, 16, 32, 64 :: nat}"
    by simp
  have f: "mem (ex_mmu\<lparr>badvaddr := 0x1000\<rparr>) = mem ex_mmu"
    using store_all_or_nothing [OF w, of ex_mmu "0x1000" "0xDEADBEEF"]
    by (simp only: ex_store_page_fault sum.case prod.case)
  have "\<exists>p s1. translate ex_mmu 0x100004 True False = Inr (p, s1)
          \<and> read_le (write_le ex_mem 0x6004 4 (0xDEADBEEF :: 32 word)) p (LENGTH(32) div 8)
              = (0xDEADBEEF :: 32 word)"
    using store_all_or_nothing [OF w, of ex_mmu "0x100004" "0xDEADBEEF"]
    by (simp add: ex_store_success del: write_le.simps read_le.simps) blast
  moreover note ex_store_translate
  ultimately have r: "read_le (write_le ex_mem 0x6004 4 (0xDEADBEEF :: 32 word)) 0x6004 4
                        = (0xDEADBEEF :: 32 word)"
    by (simp del: write_le.simps read_le.simps)
  show ?thesis
    using w f r ex_store_page_fault ex_store_success
    by (simp add: store_uint32_def del: write_le.simps read_le.simps)
qed

subsection \<open>Instruction fetch\<close>

text \<open>Fetch translations of the concrete machine.\<close>

lemma ex_fetch_page1_fault:
  assumes "mem s = ex_mem" and "ptbr s = 0x1000"
      and "tlb_insn_tag s 1 \<noteq> 0x1000"
  shows "translate s 0x1000 False True
           = Inl (trap_instruction_page_fault, s\<lparr>badvaddr := 0x1000\<rparr>)"
    and "translate s 0x1001 False True
           = Inl (trap_instruction_page_fault, s\<lparr>badvaddr := 0x1001\<rparr>)"
proof -
  have "walk s 0x1000 = None" and "walk s 0x1001 = None"
    using assms(1,2) by (rule ex_walk_page1)+
  then show "translate s 0x1000 False True
           = Inl (trap_instruction_page_fault, s\<lparr>badvaddr := 0x1000\<rparr>)"
    and "translate s 0x1001 False True
           = Inl (trap_instruction_page_fault, s\<lparr>badvaddr := 0x1001\<rparr>)"
    using assms(3) by (simp_all add: translate_def refill_def page_fault_def cfg_defs)
qed

lemma ex_fetch_page0:
  "translate ex_mmu 0xFFE False True
     = Inr (0x5FFE, ex_mmu\<lparr>tlb_insn_tag := (tlb_insn_tag ex_mmu)(0 := 0),
                           tlb_data := (tlb_data ex_mmu)(0 := 0x5000)\<rparr>)"
  "translate ex_mmu 0x2 False True
     = Inr (0x5002, ex_mmu\<lparr>tlb_insn_tag := (tlb_insn_tag ex_mmu)(0 := 0),
                           tlb_data := (tlb_data ex_mmu)(0 := 0x5000)\<rparr>)"
proof -
  have "walk ex_mmu 0xFFE = Some 0x5382" and "walk ex_mmu 0x2 = Some 0x5382"
    by (rule ex_walk_page0, simp_all add: ex_mmu_def)+
  then show "translate ex_mmu 0xFFE False True
     = Inr (0x5FFE, ex_mmu\<lparr>tlb_insn_tag := (tlb_insn_tag ex_mmu)(0 := 0),
                           tlb_data := (tlb_data ex_mmu)(0 := 0x5000)\<rparr>)"
    and "translate ex_mmu 0x2 False True
     = Inr (0x5002, ex_mmu\<lparr>tlb_insn_tag := (tlb_insn_tag ex_mmu)(0 := 0),
                           tlb_data := (tlb_data ex_mmu)(0 := 0x5000)\<rparr>)"
    by (simp_all add: translate_def refill_def tlb_install_def fun_upd_idem_iff required_perm_def PTE_SX_def
          ex_mmu_def INVALID_TAG_def cfg_defs)
qed

lemma ex_fetch_page256:
  "translate ex_mmu 0x100002 False True
     = Inr (0x6002, ex_mmu\<lparr>tlb_insn_tag := (tlb_insn_tag ex_mmu)(0 := 0x100000),
                           tlb_data := (tlb_data ex_mmu)(0 := 0x6000)\<rparr>)"
proof -
  have "walk ex_mmu 0x100002 = Some 0x63F2"
    by (rule ex_walk_page256) (simp_all add: ex_mmu_def)
  then show ?thesis
    by (simp add: translate_def refill_def tlb_install_def fun_upd_idem_iff required_perm_def PTE_SX_def
          ex_mmu_def INVALID_TAG_def cfg_defs)
qed

text \<open>The two branches of \<^verbatim>\<open>load_insn\<close>.\<close>

lemma load_insn_aligned:
  assumes "\<not> (RISCV_ENABLE_RVC E \<and> addr mod 4 = 2 \<and> rvc)"
  shows "load_insn E s addr rvc func =
          (let idx = unat ((addr div sizeof_insn_t) mod ICACHE_ENTRIES);
               data = icache_data s idx;
               func1 = icache_func s idx
           in if icache_tag s idx = addr then Inr (data, s, func1)
              else
                (case translate s addr False True of
                   Inl (t, s1) \<Rightarrow> Inl (t, s1, func1)
                 | Inr (paddr, s1) \<Rightarrow>
                     let insn = (read_le (mem s1) paddr 4 :: insn_t);
                         func2 = dispatch E insn
                     in Inr (insn,
                             s1\<lparr>icache_tag := (icache_tag s1)(idx := addr),
                                icache_data := (icache_data s1)(idx := insn),
                                icache_func := (icache_func s1)(idx := func2)\<rparr>,
                             func2)))"
  unfolding load_insn_def using assms by (rule if_not_P)

lemma load_insn_straddle:
  assumes "RISCV_ENABLE_RVC E \<and> addr mod 4 = 2 \<and> rvc"
  shows "load_insn E s addr rvc func =
          (case translate s addr False True of
             Inl (t, s1) \<Rightarrow> Inl (t, s1, func)
           | Inr (addr_lo, s1) \<Rightarrow>
               let bits = (ucast (read_le (mem s1) addr_lo 2 :: 16 word) :: insn_t);
                   func1 = dispatch E bits
               in if \<not> INSN_IS_RVC E bits then
                    (case translate s1 (addr + 2) False True of
                       Inl (t, s2) \<Rightarrow> Inl (t, s2, func1)
                     | Inr (addr_hi, s2) \<Rightarrow>
                         Inr (bits OR push_bit 16
                                (ucast (read_le (mem s2) addr_hi 2 :: 16 word) :: insn_t),
                              s2, func1))
                  else Inr (bits, s1, func1))"
  unfolding load_insn_def using assms by (rule if_P)

text \<open>
  C8. On the aligned path of \<^verbatim>\<open>load_insn\<close>, when the tag of the instruction
  cache slot differs from the address and the translation throws, the call ends with
  the trap of the translation and \<^verbatim>\<open>*func\<close> holds the handle cached in the
  slot, whatever it held before the call.
\<close>

theorem aligned_fetch_fault_overwrites_func:
  assumes "\<not> (RISCV_ENABLE_RVC E \<and> addr mod 4 = 2 \<and> rvc)"
      and "idx = unat ((addr div sizeof_insn_t) mod ICACHE_ENTRIES)"
      and "icache_tag s idx \<noteq> addr"
      and "translate s addr False True = Inl (t, s')"
  shows "load_insn E s addr rvc func = Inl (t, s', icache_func s idx)"
  using assms(2,3,4) by (simp add: load_insn_aligned [OF assms(1)] Let_def)

theorem aligned_fetch_fault_overwrites_func_witness:
  "\<not> (RISCV_ENABLE_RVC ex_env \<and> (0x1000 :: reg_t) mod 4 = 2 \<and> True)
   \<and> unat (((0x1000 :: reg_t) div sizeof_insn_t) mod ICACHE_ENTRIES) = 0
   \<and> icache_tag ex_mmu 0 \<noteq> 0x1000
   \<and> icache_func ex_mmu 0 = 99
   \<and> translate ex_mmu 0x1000 False True
        = Inl (trap_instruction_page_fault, ex_mmu\<lparr>badvaddr := 0x1000\<rparr>)
   \<and> load_insn ex_env ex_mmu 0x1000 True 7
        = Inl (trap_instruction_page_fault, ex_mmu\<lparr>badvaddr := 0x1000\<rparr>, 99)"
proof -
  have p: "\<not> (RISCV_ENABLE_RVC ex_env \<and> (0x1000 :: reg_t) mod 4 = 2 \<and> True)"
    by simp
  have i: "0 = unat (((0x1000 :: reg_t) div sizeof_insn_t) mod ICACHE_ENTRIES)"
    by (simp add: sizeof_insn_t_def ICACHE_ENTRIES_def)
  have g: "icache_tag ex_mmu 0 \<noteq> 0x1000"
    by (simp add: ex_mmu_def INVALID_TAG_def)
  have f: "icache_func ex_mmu 0 = 99"
    by (simp add: ex_mmu_def)
  have tr: "translate ex_mmu 0x1000 False True
              = Inl (trap_instruction_page_fault, ex_mmu\<lparr>badvaddr := 0x1000\<rparr>)"
    by (rule ex_fetch_page1_fault(1)) (simp_all add: ex_mmu_def INVALID_TAG_def)
  have "load_insn ex_env ex_mmu 0x1000 True 7
          = Inl (trap_instruction_page_fault, ex_mmu\<lparr>badvaddr := 0x1000\<rparr>, icache_func ex_mmu 0)"
    using p i g tr by (rule aligned_fetch_fault_overwrites_func)
  then show ?thesis
    using p i g f tr by simp
qed

text \<open>
  C9. For a fetch at an address \<open>a\<close> with \<open>a mod 4 = 2\<close> in variable-length mode
  whose low two bytes are a complete short-form instruction, the instruction returned
  is the zero extension of those two bytes: its upper 16 bits are zero.
\<close>

theorem short_form_fetch_zero_extended:
  assumes "RISCV_ENABLE_RVC E \<and> addr mod 4 = 2 \<and> rvc"
      and "translate s addr False True = Inr (addr_lo, s1)"
      and "lo = (read_le (mem s1) addr_lo 2 :: 16 word)"
      and "INSN_IS_RVC E (ucast lo)"
  shows "load_insn E s addr rvc func = Inr (ucast lo, s1, dispatch E (ucast lo))
         \<and> drop_bit 16 (ucast lo :: insn_t) = 0
         \<and> (ucast lo :: insn_t) AND 0xFFFF0000 = 0"
proof -
  have "load_insn E s addr rvc func = Inr (ucast lo, s1, dispatch E (ucast lo))"
    using assms(2,3,4) by (simp add: load_insn_straddle [OF assms(1)] Let_def)
  moreover have "drop_bit 16 (ucast lo :: insn_t) = 0"
    by (rule bit_word_eqI) (auto simp add: bit_simps dest: bit_imp_le_length)
  moreover have "(ucast lo :: insn_t) AND 0xFFFF0000 = 0"
  proof -
    have "(ucast lo :: insn_t) AND push_bit 16 (mask 16) = 0"
      by (rule bit_word_eqI) (auto simp add: bit_simps dest: bit_imp_le_length)
    moreover have "push_bit 16 (mask 16) = (0xFFFF0000 :: insn_t)"
      by (simp add: mask_eq_exp_minus_1)
    ultimately show ?thesis
      by simp
  qed
  ultimately show ?thesis
    by simp
qed

theorem short_form_fetch_zero_extended_witness:
  "(RISCV_ENABLE_RVC ex_env \<and> (0x100002 :: reg_t) mod 4 = 2 \<and> True)
   \<and> INSN_IS_RVC ex_env (ucast (1 :: 16 word))
   \<and> load_insn ex_env ex_mmu 0x100002 True 7
        = Inr (1, ex_mmu\<lparr>tlb_insn_tag := (tlb_insn_tag ex_mmu)(0 := 0x100000),
                         tlb_data := (tlb_data ex_mmu)(0 := 0x6000)\<rparr>, 1)
   \<and> drop_bit 16 (1 :: insn_t) = 0"
proof -
  let ?s1 = "ex_mmu\<lparr>tlb_insn_tag := (tlb_insn_tag ex_mmu)(0 := 0x100000),
                    tlb_data := (tlb_data ex_mmu)(0 := 0x6000)\<rparr>"
  have p: "RISCV_ENABLE_RVC ex_env \<and> (0x100002 :: reg_t) mod 4 = 2 \<and> True"
    by (simp add: ex_env_def)
  have lo: "(1 :: 16 word) = read_le (mem ?s1) 0x6002 2"
    by (simp add: read_le_2 ex_mmu_def ex_mem_def)
  have c: "INSN_IS_RVC ex_env (ucast (1 :: 16 word))"
    by (simp add: ex_env_def)
  have d: "dispatch ex_env (ucast (1 :: 16 word)) = 1"
    by (simp add: dispatch_def ex_env_def)
  show ?thesis
    using p c d short_form_fetch_zero_extended [OF p ex_fetch_page256 lo c, of 7]
    by simp
qed

text \<open>
  C10. \<^verbatim>\<open>load_insn\<close> checks no alignment and throws nothing of its own: every
  trap it ends in is the trap of one of its fetch translations, of the address or of
  the address plus 2, and is never a misaligned-access trap.
\<close>

theorem load_insn_never_misaligned:
  assumes "load_insn E s addr rvc func = Inl (t, s', f')"
  shows "\<not> misaligned_trap t
         \<and> (translate s addr False True = Inl (t, s')
            \<or> (\<exists>p s1. translate s addr False True = Inr (p, s1)
                  \<and> translate s1 (addr + 2) False True = Inl (t, s')))"
proof -
  have src: "translate s addr False True = Inl (t, s')
            \<or> (\<exists>p s1. translate s addr False True = Inr (p, s1)
                  \<and> translate s1 (addr + 2) False True = Inl (t, s'))"
  proof (cases "RISCV_ENABLE_RVC E \<and> addr mod 4 = 2 \<and> rvc")
    case True
    show ?thesis
      using assms unfolding load_insn_straddle [OF True]
      by (auto simp add: Let_def split: sum.splits prod.splits if_splits)
  next
    case False
    show ?thesis
      using assms unfolding load_insn_aligned [OF False]
      by (auto simp add: Let_def split: sum.splits prod.splits if_splits)
  qed
  then have "\<not> misaligned_trap t"
    using translate_not_misaligned by blast
  then show ?thesis
    using src by simp
qed

theorem load_insn_never_misaligned_witness:
  "load_insn ex_env ex_mmu 0x1001 True 7
     = Inl (trap_instruction_page_fault, ex_mmu\<lparr>badvaddr := 0x1001\<rparr>, 99)
   \<and> \<not> misaligned_trap trap_instruction_page_fault
   \<and> translate ex_mmu 0x1001 False True
        = Inl (trap_instruction_page_fault, ex_mmu\<lparr>badvaddr := 0x1001\<rparr>)"
proof -
  have tr: "translate ex_mmu 0x1001 False True
              = Inl (trap_instruction_page_fault, ex_mmu\<lparr>badvaddr := 0x1001\<rparr>)"
    by (rule ex_fetch_page1_fault(2)) (simp_all add: ex_mmu_def INVALID_TAG_def)
  have p: "\<not> (RISCV_ENABLE_RVC ex_env \<and> (0x1001 :: reg_t) mod 4 = 2 \<and> True)"
    by simp
  have l: "load_insn ex_env ex_mmu 0x1001 True 7
             = Inl (trap_instruction_page_fault, ex_mmu\<lparr>badvaddr := 0x1001\<rparr>, 99)"
    using tr
    by (simp add: load_insn_aligned [OF p] sizeof_insn_t_def ICACHE_ENTRIES_def
          ex_mmu_def INVALID_TAG_def)
  show ?thesis
    using l tr load_insn_never_misaligned [OF l] by simp
qed

subsection \<open>The fetch across a word boundary\<close>

lemma dispatch_low_half:
  fixes lo hi :: "16 word"
  assumes "DISPATCH_TABLE_SIZE E dvd 2 ^ 16"
  shows "dispatch E (ucast lo OR push_bit 16 (ucast hi)) = dispatch E (ucast lo)"
proof -
  let ?full = "(ucast lo OR push_bit 16 (ucast hi)) :: insn_t"
  have "take_bit 16 ?full = (ucast lo :: insn_t)"
    by (rule bit_word_eqI) (auto simp add: bit_simps dest: bit_imp_le_length)
  then have "unat (ucast lo :: insn_t) = unat ?full mod 2 ^ 16"
    by (metis take_bit_eq_mod unsigned_take_bit_eq)
  then have "unat (ucast lo :: insn_t) mod DISPATCH_TABLE_SIZE E
               = unat ?full mod DISPATCH_TABLE_SIZE E"
    using assms by (simp add: mod_mod_cancel)
  then show ?thesis
    by (simp add: dispatch_def)
qed

text \<open>
  C1, as the code has it. For a fetch in variable-length mode at an address \<open>a\<close>
  with \<open>a mod 4 = 2\<close> whose low two bytes, translated with the fetch kind, are not a
  complete short-form instruction: the decode handle is looked up on the low 16 bits
  as soon as they are read and written to \<^verbatim>\<open>*func\<close>; then the following two
  bytes are translated on their own and become the upper 16 bits of the instruction.
  The handle is the one of the low 16 bits whether the second translation returns or
  throws; it is the handle of the full instruction bits whenever the size of the
  dispatch table divides \<open>2 ^ 16\<close>. The instruction cache is not read and not written.
\<close>

theorem straddling_fetch_looks_up_low_half:
  assumes "RISCV_ENABLE_RVC E \<and> addr mod 4 = 2 \<and> rvc"
      and "translate s addr False True = Inr (addr_lo, s1)"
      and "lo = (read_le (mem s1) addr_lo 2 :: 16 word)"
      and "\<not> INSN_IS_RVC E (ucast lo)"
  shows "load_insn E s addr rvc func =
           (case translate s1 (addr + 2) False True of
              Inl (t, s2) \<Rightarrow> Inl (t, s2, dispatch E (ucast lo))
            | Inr (addr_hi, s2) \<Rightarrow>
                Inr (ucast lo OR push_bit 16 (ucast (read_le (mem s2) addr_hi 2 :: 16 word)),
                     s2, dispatch E (ucast lo)))
         \<and> final_func (load_insn E s addr rvc func) = dispatch E (ucast lo)
         \<and> (DISPATCH_TABLE_SIZE E dvd 2 ^ 16 \<longrightarrow>
              (\<forall>hi :: 16 word. dispatch E (ucast lo OR push_bit 16 (ucast hi))
                                 = dispatch E (ucast lo)))
         \<and> icache_tag (final_state (load_insn E s addr rvc func)) = icache_tag s
         \<and> icache_data (final_state (load_insn E s addr rvc func)) = icache_data s
         \<and> icache_func (final_state (load_insn E s addr rvc func)) = icache_func s"
proof -
  let ?r = "case translate s1 (addr + 2) False True of
              Inl (t, s2) \<Rightarrow> Inl (t, s2, dispatch E (ucast lo))
            | Inr (addr_hi, s2) \<Rightarrow>
                Inr (ucast lo OR push_bit 16 (ucast (read_le (mem s2) addr_hi 2 :: 16 word)),
                     s2, dispatch E (ucast lo))"
  have eq: "load_insn E s addr rvc func = ?r"
    using assms(2,4) unfolding assms(3)
    by (simp add: load_insn_straddle [OF assms(1)] Let_def)
  have ic1: "icache_tag s1 = icache_tag s \<and> icache_data s1 = icache_data s
             \<and> icache_func s1 = icache_func s"
    using translate_Inr [OF assms(2)] by simp
  have fin: "final_func ?r = dispatch E (ucast lo)
             \<and> icache_tag (final_state ?r) = icache_tag s
             \<and> icache_data (final_state ?r) = icache_data s
             \<and> icache_func (final_state ?r) = icache_func s"
  proof (cases "translate s1 (addr + 2) False True")
    case (Inl e)
    obtain t s2 where e: "e = (t, s2)"
      by (cases e)
    have "s2 = s1\<lparr>badvaddr := addr + 2\<rparr>"
      using translate_Inl [of s1 "addr + 2" False True t s2] Inl e by simp
    then show ?thesis
      using Inl e ic1 by (simp add: final_func_def final_state_def)
  next
    case (Inr r)
    obtain p s2 where r: "r = (p, s2)"
      by (cases r)
    have "icache_tag s2 = icache_tag s1 \<and> icache_data s2 = icache_data s1
          \<and> icache_func s2 = icache_func s1"
      using translate_Inr [of s1 "addr + 2" False True p s2] Inr r by simp
    then show ?thesis
      using Inr r ic1 by (simp add: final_func_def final_state_def)
  qed
  have dv: "DISPATCH_TABLE_SIZE E dvd 2 ^ 16 \<longrightarrow>
              (\<forall>hi :: 16 word. dispatch E (ucast lo OR push_bit 16 (ucast hi))
                                 = dispatch E (ucast lo))"
    by (simp add: dispatch_low_half)
  show ?thesis
    using fin dv unfolding eq by simp
qed

lemma ex_fetch_after_page0:
  fixes s1 :: "nat mmu_t"
  assumes "s1 = ex_mmu\<lparr>tlb_insn_tag := (tlb_insn_tag ex_mmu)(0 := 0),
                        tlb_data := (tlb_data ex_mmu)(0 := 0x5000)\<rparr>"
  shows "translate s1 0x4 False True = Inr (0x5004, s1)"
    and "translate s1 0x1000 False True
           = Inl (trap_instruction_page_fault, s1\<lparr>badvaddr := 0x1000\<rparr>)"
proof -
  show "translate s1 0x4 False True = Inr (0x5004, s1)"
    unfolding assms by (simp add: translate_def cfg_defs)
  show "translate s1 0x1000 False True
           = Inl (trap_instruction_page_fault, s1\<lparr>badvaddr := 0x1000\<rparr>)"
    unfolding assms
    by (rule ex_fetch_page1_fault(1)) (simp_all add: ex_mmu_def INVALID_TAG_def)
qed

theorem straddling_fetch_looks_up_low_half_witness:
  "(RISCV_ENABLE_RVC ex_env \<and> (0x2 :: reg_t) mod 4 = 2 \<and> True)
   \<and> \<not> INSN_IS_RVC ex_env (ucast (0x0513 :: 16 word))
   \<and> load_insn ex_env ex_mmu 0x2 True 7
       = Inr (0x12350513,
              ex_mmu\<lparr>tlb_insn_tag := (tlb_insn_tag ex_mmu)(0 := 0),
                       tlb_data := (tlb_data ex_mmu)(0 := 0x5000)\<rparr>,
              dispatch ex_env 0x0513)
   \<and> DISPATCH_TABLE_SIZE ex_env dvd 2 ^ 16
   \<and> dispatch ex_env 0x12350513 = dispatch ex_env 0x0513"
proof -
  let ?s1 = "ex_mmu\<lparr>tlb_insn_tag := (tlb_insn_tag ex_mmu)(0 := 0),
                     tlb_data := (tlb_data ex_mmu)(0 := 0x5000)\<rparr>"
  have p: "RISCV_ENABLE_RVC ex_env \<and> (0x2 :: reg_t) mod 4 = 2 \<and> True"
    by (simp add: ex_env_def)
  have lo: "(0x0513 :: 16 word) = read_le (mem ?s1) 0x5002 2"
    by (simp add: read_le_2 ex_mmu_def ex_mem_def)
  have hi: "read_le (mem ex_mmu) 0x5004 2 = (0x1235 :: 16 word)"
    by (simp add: read_le_2 ex_mmu_def ex_mem_def)
  have c: "\<not> INSN_IS_RVC ex_env (ucast (0x0513 :: 16 word))"
    by (simp add: ex_env_def)
  have d: "DISPATCH_TABLE_SIZE ex_env dvd 2 ^ 16"
    by (simp add: ex_env_def)
  have tr: "translate ?s1 0x4 False True = Inr (0x5004, ?s1)"
    by (rule ex_fetch_after_page0(1) [OF refl])
  note inst = straddling_fetch_looks_up_low_half [OF p ex_fetch_page0(2) lo c, of 7]
  have l: "load_insn ex_env ex_mmu 0x2 True 7 = Inr (0x12350513, ?s1, dispatch ex_env 0x0513)"
    using inst [THEN conjunct1] by (simp add: tr hi)
  have "dispatch ex_env (ucast (0x0513 :: 16 word) OR push_bit 16 (ucast (0x1235 :: 16 word)))
          = dispatch ex_env (ucast (0x0513 :: 16 word))"
    using inst d by blast
  then have e: "dispatch ex_env 0x12350513 = dispatch ex_env 0x0513"
    by simp
  show ?thesis
    using p c l d e by simp
qed

text \<open>
  The fetch at \<open>0xFFE\<close>: the low half \<open>0x0003\<close> on the mapped page 0 is not a
  short-form instruction and the high half lies on the unmapped page 1. The code has
  written the handle of the low half (3) to \<^verbatim>\<open>*func\<close> when the second
  translation throws; a lookup after the concatenation would have left the 7 of the
  caller.
\<close>

theorem straddling_fetch_lookup_order_counterexample:
  "load_insn ex_env ex_mmu 0xFFE True 7
     = Inl (trap_instruction_page_fault,
            ex_mmu\<lparr>tlb_insn_tag := (tlb_insn_tag ex_mmu)(0 := 0),
                     tlb_data := (tlb_data ex_mmu)(0 := 0x5000),
                     badvaddr := 0x1000\<rparr>, 3)
   \<and> load_insn_lookup_last ex_env ex_mmu 0xFFE 7
     = Inl (trap_instruction_page_fault,
            ex_mmu\<lparr>tlb_insn_tag := (tlb_insn_tag ex_mmu)(0 := 0),
                     tlb_data := (tlb_data ex_mmu)(0 := 0x5000),
                     badvaddr := 0x1000\<rparr>, 7)
   \<and> load_insn ex_env ex_mmu 0xFFE True 7 \<noteq> load_insn_lookup_last ex_env ex_mmu 0xFFE 7"
proof -
  let ?s1 = "ex_mmu\<lparr>tlb_insn_tag := (tlb_insn_tag ex_mmu)(0 := 0),
                     tlb_data := (tlb_data ex_mmu)(0 := 0x5000)\<rparr>"
  have p: "RISCV_ENABLE_RVC ex_env \<and> (0xFFE :: reg_t) mod 4 = 2 \<and> True"
    by (simp add: ex_env_def)
  have lo: "read_le (mem ex_mmu) 0x5FFE 2 = (0x0003 :: 16 word)"
    by (simp add: read_le_2 ex_mmu_def ex_mem_def)
  have c: "\<not> INSN_IS_RVC ex_env 3" and d: "dispatch ex_env 3 = 3"
    by (simp_all add: ex_env_def dispatch_def)
  have tr: "translate ?s1 0x1000 False True
              = Inl (trap_instruction_page_fault, ?s1\<lparr>badvaddr := 0x1000\<rparr>)"
    by (rule ex_fetch_after_page0(2) [OF refl])
  have code: "load_insn ex_env ex_mmu 0xFFE True 7
                = Inl (trap_instruction_page_fault, ?s1\<lparr>badvaddr := 0x1000\<rparr>, 3)"
    by (simp add: load_insn_straddle [OF p] ex_fetch_page0(1) lo c d tr Let_def)
  have claimed: "load_insn_lookup_last ex_env ex_mmu 0xFFE 7
                = Inl (trap_instruction_page_fault, ?s1\<lparr>badvaddr := 0x1000\<rparr>, 7)"
    by (simp add: load_insn_lookup_last_def ex_fetch_page0(1) lo c tr Let_def)
  show ?thesis
    by (simp add: code claimed)
qed

subsection \<open>Setting the page table base\<close>

lemma INVALID_TAG_not_page:
  "INVALID_TAG \<noteq> (va :: reg_t) AND NOT (PGSIZE - 1)"
proof
  assume "INVALID_TAG = va AND NOT (PGSIZE - 1)"
  then have "bit (va AND NOT (PGSIZE - 1)) 0 = bit (- 1 :: reg_t) 0"
    by (simp add: INVALID_TAG_def)
  then show False
    by (simp add: PGSIZE_mask bit_simps)
qed

lemma INVALID_TAG_odd:
  "(va :: reg_t) AND 1 = 0 \<Longrightarrow> INVALID_TAG \<noteq> va"
  by (auto simp add: INVALID_TAG_def)

text \<open>
  C2. For every argument, \<^verbatim>\<open>set_ptbr\<close> stores the argument with its page
  offset bits cleared in the page table base register and invalidates both caches: no
  slot of the three TLB tag arrays holds the page-aligned part of any address, so every
  translation that follows goes to the refill, and no slot of the instruction cache
  holds the address of an instruction (an even address).
\<close>

theorem set_ptbr_invalidates:
  "get_ptbr (set_ptbr s addr) = addr AND NOT (PGSIZE - 1)
   \<and> get_ptbr (set_ptbr s addr) AND (PGSIZE - 1) = 0
   \<and> (\<forall>i va. tlb_insn_tag (set_ptbr s addr) i \<noteq> va AND NOT (PGSIZE - 1)
             \<and> tlb_load_tag (set_ptbr s addr) i \<noteq> va AND NOT (PGSIZE - 1)
             \<and> tlb_store_tag (set_ptbr s addr) i \<noteq> va AND NOT (PGSIZE - 1))
   \<and> (\<forall>va store fetch. translate (set_ptbr s addr) va store fetch
                          = refill (set_ptbr s addr) va store fetch)
   \<and> (\<forall>i va. va AND 1 = 0 \<longrightarrow> icache_tag (set_ptbr s addr) i \<noteq> va)"
proof -
  have "get_ptbr (set_ptbr s addr) = addr AND NOT (PGSIZE - 1)"
    by (simp add: get_ptbr_def set_ptbr_def flush_tlb_def flush_icache_def)
  moreover have "(addr AND NOT (PGSIZE - 1)) AND (PGSIZE - 1) = 0"
    by (simp add: and.assoc)
  moreover have tags: "\<forall>i va. tlb_insn_tag (set_ptbr s addr) i \<noteq> va AND NOT (PGSIZE - 1)
             \<and> tlb_load_tag (set_ptbr s addr) i \<noteq> va AND NOT (PGSIZE - 1)
             \<and> tlb_store_tag (set_ptbr s addr) i \<noteq> va AND NOT (PGSIZE - 1)"
    by (simp add: set_ptbr_def flush_tlb_def flush_icache_def INVALID_TAG_not_page)
  moreover have "\<forall>va store fetch. translate (set_ptbr s addr) va store fetch
                          = refill (set_ptbr s addr) va store fetch"
    using tags by (simp add: translate_def Let_def)
  moreover have "\<forall>i va. va AND 1 = 0 \<longrightarrow> icache_tag (set_ptbr s addr) i \<noteq> va"
    by (simp add: set_ptbr_def flush_tlb_def flush_icache_def INVALID_TAG_odd)
  ultimately show ?thesis
    by simp
qed

theorem set_ptbr_invalidates_witness:
  "(0x1000 :: reg_t) AND 1 = 0
   \<and> get_ptbr (set_ptbr (ex_mmu\<lparr>icache_tag := (icache_tag ex_mmu)(0 := 0x1000)\<rparr>) 0x2FFF) = 0x2000
   \<and> icache_tag (set_ptbr (ex_mmu\<lparr>icache_tag := (icache_tag ex_mmu)(0 := 0x1000)\<rparr>) 0x2FFF) 0
        \<noteq> 0x1000"
proof -
  let ?s = "ex_mmu\<lparr>icache_tag := (icache_tag ex_mmu)(0 := 0x1000)\<rparr>"
  have e: "(0x1000 :: reg_t) AND 1 = 0"
    by simp
  have "(0x2FFF :: reg_t) AND NOT (PGSIZE - 1) = 0x2000"
    by (simp add: PGSIZE_minus_1)
  then have p: "get_ptbr (set_ptbr ?s 0x2FFF) = 0x2000"
    using set_ptbr_invalidates [of ?s "0x2FFF"] by simp
  have "icache_tag (set_ptbr ?s 0x2FFF) 0 \<noteq> 0x1000"
    using set_ptbr_invalidates [of ?s "0x2FFF"] e by blast
  then show ?thesis
    using e p by simp
qed

subsection \<open>The TLB and the virtual-memory flag\<close>

lemma translate_hit:
  assumes "slot = unat (drop_bit PGSHIFT addr mod TLB_ENTRIES)"
      and "tlb_tag_of (kind_of store fetch) s slot = addr AND NOT (PGSIZE - 1)"
  shows "translate s addr store fetch = Inr ((addr AND (PGSIZE - 1)) OR tlb_data s slot, s)"
  using assms by (auto simp add: translate_def kind_of_def tlb_tag_of_def Let_def)

lemma translate_miss:
  assumes "slot = unat (drop_bit PGSHIFT addr mod TLB_ENTRIES)"
      and "tlb_tag_of (kind_of store fetch) s slot \<noteq> addr AND NOT (PGSIZE - 1)"
  shows "translate s addr store fetch = refill s addr store fetch"
  using assms by (auto simp add: translate_def kind_of_def tlb_tag_of_def Let_def)

lemma tlb_tag_of_vm_enabled:
  "tlb_tag_of k (s\<lparr>vm_enabled := en\<rparr>) = tlb_tag_of k s"
  by (simp add: tlb_tag_of_def split: access_kind.splits)

text \<open>
  C4, as the code has it. \<^verbatim>\<open>set_vm_enabled\<close> writes the flag and nothing
  else: the state after it is the state before it with the flag replaced.
  \<^verbatim>\<open>translate\<close> does not read the flag: whatever value the flag has and is
  set to, true or false, a tag match in the TLB returns the same location, the page
  offset combined with the cached page base, and leaves the state as it is, and a
  mismatch is delegated to the refill. There is no bypass for disabled virtual memory
  in \<^verbatim>\<open>translate\<close>.
\<close>

theorem translate_with_vm_disabled:
  assumes "slot = unat (drop_bit PGSHIFT addr mod TLB_ENTRIES)"
  shows "set_vm_enabled s en = s\<lparr>vm_enabled := en\<rparr>
         \<and> (tlb_tag_of (kind_of store fetch) s slot = addr AND NOT (PGSIZE - 1) \<longrightarrow>
              translate s addr store fetch
                = Inr ((addr AND (PGSIZE - 1)) OR tlb_data s slot, s)
              \<and> translate (set_vm_enabled s en) addr store fetch
                = Inr ((addr AND (PGSIZE - 1)) OR tlb_data s slot, set_vm_enabled s en))
         \<and> (tlb_tag_of (kind_of store fetch) s slot \<noteq> addr AND NOT (PGSIZE - 1) \<longrightarrow>
              translate s addr store fetch = refill s addr store fetch
              \<and> translate (set_vm_enabled s en) addr store fetch
                = refill (set_vm_enabled s en) addr store fetch)"
proof -
  have e: "set_vm_enabled s en = s\<lparr>vm_enabled := en\<rparr>"
    by (simp add: set_vm_enabled_def)
  have d: "tlb_data (set_vm_enabled s en) = tlb_data s"
    by (simp add: e)
  have g: "tlb_tag_of (kind_of store fetch) (set_vm_enabled s en)
             = tlb_tag_of (kind_of store fetch) s"
    by (simp add: e tlb_tag_of_vm_enabled)
  have h: "tlb_tag_of (kind_of store fetch) s slot = addr AND NOT (PGSIZE - 1) \<longrightarrow>
              translate s addr store fetch
                = Inr ((addr AND (PGSIZE - 1)) OR tlb_data s slot, s)
              \<and> translate (set_vm_enabled s en) addr store fetch
                = Inr ((addr AND (PGSIZE - 1)) OR tlb_data s slot, set_vm_enabled s en)"
    using translate_hit [OF assms, of store fetch s]
      translate_hit [OF assms, of store fetch "set_vm_enabled s en"]
    by (simp add: d g)
  have m: "tlb_tag_of (kind_of store fetch) s slot \<noteq> addr AND NOT (PGSIZE - 1) \<longrightarrow>
              translate s addr store fetch = refill s addr store fetch
              \<and> translate (set_vm_enabled s en) addr store fetch
                = refill (set_vm_enabled s en) addr store fetch"
    using translate_miss [OF assms, of store fetch s]
      translate_miss [OF assms, of store fetch "set_vm_enabled s en"]
    by (simp add: g)
  show ?thesis
    using e h m by simp
qed

lemma ex_load_page0:
  "translate ex_mmu 0x4 False False
     = Inr (0x5004, ex_mmu\<lparr>tlb_load_tag := (tlb_load_tag ex_mmu)(0 := 0),
                           tlb_data := (tlb_data ex_mmu)(0 := 0x5000)\<rparr>)"
proof -
  have "walk ex_mmu 0x4 = Some 0x5382"
    by (rule ex_walk_page0) (simp_all add: ex_mmu_def)
  then show ?thesis
    by (simp add: translate_def refill_def tlb_install_def fun_upd_idem_iff required_perm_def
          PTE_SR_def ex_mmu_def INVALID_TAG_def cfg_defs)
qed

theorem translate_with_vm_disabled_witness:
  "0 = unat (drop_bit PGSHIFT (0x4 :: reg_t) mod TLB_ENTRIES)
   \<and> tlb_tag_of (kind_of False False)
        (ex_mmu\<lparr>tlb_load_tag := (tlb_load_tag ex_mmu)(0 := 0),
                 tlb_data := (tlb_data ex_mmu)(0 := 0x5000)\<rparr>) 0
       = 0x4 AND NOT (PGSIZE - 1)
   \<and> translate (ex_mmu\<lparr>tlb_load_tag := (tlb_load_tag ex_mmu)(0 := 0),
                        tlb_data := (tlb_data ex_mmu)(0 := 0x5000)\<rparr>)
        0x4 False False
       = Inr (0x5004,
              ex_mmu\<lparr>tlb_load_tag := (tlb_load_tag ex_mmu)(0 := 0),
                       tlb_data := (tlb_data ex_mmu)(0 := 0x5000)\<rparr>)
   \<and> translate (set_vm_enabled
                   (ex_mmu\<lparr>tlb_load_tag := (tlb_load_tag ex_mmu)(0 := 0),
                            tlb_data := (tlb_data ex_mmu)(0 := 0x5000)\<rparr>) False)
        0x4 False False
       = Inr (0x5004,
              set_vm_enabled
                (ex_mmu\<lparr>tlb_load_tag := (tlb_load_tag ex_mmu)(0 := 0),
                         tlb_data := (tlb_data ex_mmu)(0 := 0x5000)\<rparr>) False)"
proof -
  let ?s1 = "ex_mmu\<lparr>tlb_load_tag := (tlb_load_tag ex_mmu)(0 := 0),
                     tlb_data := (tlb_data ex_mmu)(0 := 0x5000)\<rparr>"
  have i: "0 = unat (drop_bit PGSHIFT (0x4 :: reg_t) mod TLB_ENTRIES)"
    by (simp add: cfg_defs)
  have g: "tlb_tag_of (kind_of False False) ?s1 0 = 0x4 AND NOT (PGSIZE - 1)"
    by (simp add: tlb_tag_of_def kind_of_def PGSIZE_minus_1)
  have "translate ?s1 0x4 False False = Inr ((0x4 AND (PGSIZE - 1)) OR tlb_data ?s1 0, ?s1)
        \<and> translate (set_vm_enabled ?s1 False) 0x4 False False
          = Inr ((0x4 AND (PGSIZE - 1)) OR tlb_data ?s1 0, set_vm_enabled ?s1 False)"
    using translate_with_vm_disabled [OF i, of ?s1 False False False] g by blast
  then have "translate ?s1 0x4 False False = Inr (0x5004, ?s1)
        \<and> translate (set_vm_enabled ?s1 False) 0x4 False False
          = Inr (0x5004, set_vm_enabled ?s1 False)"
    by (simp add: PGSIZE_minus_1)
  then show ?thesis
    using i g by simp
qed

text \<open>
  On the concrete machine: a load of the address 4 with virtual memory enabled caches
  the translation of the page 0; virtual memory is disabled; a second load of the
  address 4 finds the cached entry and resolves to \<open>0x5004\<close>, not to 4.
\<close>

theorem vm_disabled_not_identity_counterexample:
  "translate ex_mmu 0x4 False False
     = Inr (0x5004, ex_mmu\<lparr>tlb_load_tag := (tlb_load_tag ex_mmu)(0 := 0),
                           tlb_data := (tlb_data ex_mmu)(0 := 0x5000)\<rparr>)
   \<and> vm_enabled (set_vm_enabled
                   (ex_mmu\<lparr>tlb_load_tag := (tlb_load_tag ex_mmu)(0 := 0),
                            tlb_data := (tlb_data ex_mmu)(0 := 0x5000)\<rparr>) False) = False
   \<and> translate (set_vm_enabled
                   (ex_mmu\<lparr>tlb_load_tag := (tlb_load_tag ex_mmu)(0 := 0),
                            tlb_data := (tlb_data ex_mmu)(0 := 0x5000)\<rparr>) False)
        0x4 False False
       = Inr (0x5004,
              set_vm_enabled
                (ex_mmu\<lparr>tlb_load_tag := (tlb_load_tag ex_mmu)(0 := 0),
                         tlb_data := (tlb_data ex_mmu)(0 := 0x5000)\<rparr>) False)
   \<and> (0x5004 :: reg_t) \<noteq> 0x4"
proof -
  let ?s1 = "ex_mmu\<lparr>tlb_load_tag := (tlb_load_tag ex_mmu)(0 := 0),
                     tlb_data := (tlb_data ex_mmu)(0 := 0x5000)\<rparr>"
  have "translate (set_vm_enabled ?s1 False) 0x4 False False
          = Inr (0x5004, set_vm_enabled ?s1 False)"
    by (simp add: translate_def set_vm_enabled_def cfg_defs)
  then show ?thesis
    using ex_load_page0 by (simp add: set_vm_enabled_def)
qed

subsection \<open>One page base for the three access kinds\<close>








subsection \<open>A scenario of the specification\<close>

text \<open>
  The scenario of the specification: the virtual page 0 is mapped to the physical page
  5 with the supervisor permissions only. In unprivileged mode the load of 32 bits at
  the address 4 ends in an access violation with the fault address 4; in privileged
  mode it returns the four bytes at \<open>5 * 4096 + 4\<close>.
\<close>

lemma scenario_supervisor_only_page:
  "load_uint32 (set_supervisor ex_mmu False) 0x4
     = Inl (trap_load_access_fault, set_supervisor ex_mmu False\<lparr>badvaddr := 0x4\<rparr>)"
  "load_uint32 (set_supervisor ex_mmu True) 0x4
     = Inr (read_le ex_mem (5 * 4096 + 4) 4,
            ex_mmu\<lparr>tlb_load_tag := (tlb_load_tag ex_mmu)(0 := 0),
                     tlb_data := (tlb_data ex_mmu)(0 := 0x5000)\<rparr>)"
proof -
  have "walk (set_supervisor ex_mmu False) 0x4 = Some 0x5382"
    by (rule ex_walk_page0) (simp_all add: ex_mmu_def set_supervisor_def)
  then have "translate (set_supervisor ex_mmu False) 0x4 False False
               = Inl (trap_load_access_fault, set_supervisor ex_mmu False\<lparr>badvaddr := 0x4\<rparr>)"
    by (simp add: translate_def refill_def required_perm_def PTE_UR_def access_fault_def
          set_supervisor_def ex_mmu_def INVALID_TAG_def cfg_defs)
  then show "load_uint32 (set_supervisor ex_mmu False) 0x4
     = Inl (trap_load_access_fault, set_supervisor ex_mmu False\<lparr>badvaddr := 0x4\<rparr>)"
    by (simp add: load_uint32_def load_func_def sizeof_def)
  have "set_supervisor ex_mmu True = ex_mmu"
    by (simp add: set_supervisor_def ex_mmu_def)
  then show "load_uint32 (set_supervisor ex_mmu True) 0x4
     = Inr (read_le ex_mem (5 * 4096 + 4) 4,
            ex_mmu\<lparr>tlb_load_tag := (tlb_load_tag ex_mmu)(0 := 0),
                     tlb_data := (tlb_data ex_mmu)(0 := 0x5000)\<rparr>)"
    using ex_load_page0 by (simp add: load_uint32_def load_func_def sizeof_def ex_mmu_def)
qed

end
